theory Spec2Isabelle
  imports Complex_Main "HOL-Library.Multiset" "HOL-Library.Sublist" "HOL-Library.AList"
begin

section \<open>Errors\<close>

text \<open>
  The exceptions the Python code can raise, as values. The specification's error names
  correspond to them as follows: \<open>NotImplemented\<close> is \<open>NotImplementedError\<close>,
  \<open>InvalidArgument\<close> is \<open>ValueError\<close>, \<open>MissingEntity\<close> is the \<open>KeyError\<close> of an
  entity identifier looked up in \<open>features\<close>, \<open>MissingView\<close> is the \<open>KeyError\<close> of a view
  name looked up in one entity's view dictionary. \<open>UnboundLocalError\<close> carries the name of
  the local variable that was read before any assignment, \<open>KeyError\<close> the missing key.
\<close>

datatype error =
    NotImplementedError
  | ValueError
  | KeyError string
  | IndexError
  | UnboundLocalError string

section \<open>The drug response dataset\<close>

text \<open>
  A fold descriptor of the cross-validation: index arrays into the response records.
\<close>

record cv_fold =
  train :: "nat list"
  validation :: "nat list"
  test :: "nat list"

text \<open>
  \<open>class DrugResponseDataset\<close>. The attribute \<open>cv_splits\<close> does not exist before the first
  successful \<open>split_dataset\<close>; \<open>None\<close> stands for the missing attribute.
\<close>

record DrugResponseDataset =
  target_type :: string
  response :: "real list"
  cell_line_ids :: "string list"
  drug_ids :: "string list"
  predictions :: "real list option"
  cv_splits :: "cv_fold list option"

text \<open>\<open>DrugResponseDataset.__init__\<close>: five assignments, no check.\<close>

definition DrugResponseDataset_init ::
  "string \<Rightarrow> real list \<Rightarrow> string list \<Rightarrow> string list \<Rightarrow> error + DrugResponseDataset" where
  "DrugResponseDataset_init tt resp cls drs =
     Inr \<lparr>target_type = tt, response = resp, cell_line_ids = cls, drug_ids = drs,
          predictions = None, cv_splits = None\<rparr>"

subsection \<open>The leave-pair-out splitter\<close>

text \<open>
  The seeded pseudo-random shuffle the splitter draws from: given the seed
  (\<open>random_state\<close>) and a list, the list in shuffled order. It is a parameter of the model;
  the theorems about the splitter assume of it only that it returns a permutation of its
  argument.
\<close>

type_synonym shuffler = "int \<Rightarrow> nat list \<Rightarrow> nat list"

text \<open>
  Modelled from the spec: \<open>leave_pair_out_cv\<close> of the module \<open>utils\<close>, which
  \<open>split_dataset\<close> imports and calls and whose source is not available. The
  specification (section 4.3) describes it: the record indices \<open>0..N-1\<close> are shuffled
  reproducibly from \<open>random_state\<close> and cut into \<open>k\<close> consecutive buckets whose sizes differ
  by at most one; fold \<open>i\<close> has bucket \<open>i\<close> as its test set and the union of the other
  buckets as its training pool; if validation splitting is requested, a reproducible
  random subsample of the pool of size \<open>round (validation_ratio * |pool|)\<close> becomes the
  validation set and is removed from training, otherwise the validation set is empty.
  \<open>N\<close> is the length of \<open>response\<close>. The specification does not say how an exact half is
  rounded; \<open>round\<close> here rounds it up.
\<close>

text \<open>
  Modelled from the spec: the bucket sizes of \<open>leave_pair_out_cv\<close> ("bucket sizes differ
  by at most one when N is not divisible by k"): \<open>N div k\<close>, and one more for the first
  \<open>N mod k\<close> buckets.
\<close>

definition fold_sizes :: "nat \<Rightarrow> nat \<Rightarrow> nat list" where
  "fold_sizes n k = map (\<lambda>i. n div k + (if i < n mod k then 1 else 0)) [0..<k]"

text \<open>
  Modelled from the spec: the chunking step of \<open>leave_pair_out_cv\<close> ("shuffle-then-chunk"):
  consecutive pieces of the given sizes.
\<close>

fun chunk :: "nat list \<Rightarrow> 'a list \<Rightarrow> 'a list list" where
  "chunk [] xs = []"
| "chunk (s # ss) xs = take s xs # chunk ss (drop s xs)"

text \<open>
  Modelled from the spec: the buckets of \<open>leave_pair_out_cv\<close> ("assign each record index to
  one of k buckets via a reproducible shuffle-then-chunk procedure seeded by
  random_state").
\<close>

definition lpo_buckets :: "shuffler \<Rightarrow> nat \<Rightarrow> nat \<Rightarrow> int \<Rightarrow> nat list list" where
  "lpo_buckets shuffle n k random_state = chunk (fold_sizes n k) (shuffle random_state [0..<n])"

text \<open>
  Modelled from the spec: the training pool of fold \<open>i\<close> in \<open>leave_pair_out_cv\<close> ("its
  training pool = union of all other buckets").
\<close>

definition training_pool :: "nat list list \<Rightarrow> nat \<Rightarrow> nat list" where
  "training_pool buckets i = concat (take i buckets @ drop (Suc i) buckets)"

text \<open>
  Modelled from the spec: the validation carving of \<open>leave_pair_out_cv\<close> ("a further
  reproducible random subsample of the training pool (size = round(validation_ratio x
  |training pool|)) becomes validation and is removed from training", "else validation is
  empty"). The result is the pair (train, validation).
\<close>

definition carve_validation ::
  "shuffler \<Rightarrow> bool \<Rightarrow> real \<Rightarrow> int \<Rightarrow> nat list \<Rightarrow> nat list \<times> nat list" where
  "carve_validation shuffle split_validation validation_ratio random_state pool =
     (if split_validation then
        (let m = nat (round (validation_ratio * real (length pool)));
             s = shuffle random_state pool
         in (drop m s, take m s))
      else (pool, []))"

text \<open>
  Modelled from the spec: the fold descriptor \<open>i\<close> of \<open>leave_pair_out_cv\<close> ("Fold i's test
  set = bucket i").
\<close>

definition make_fold ::
  "shuffler \<Rightarrow> bool \<Rightarrow> real \<Rightarrow> int \<Rightarrow> nat list list \<Rightarrow> nat \<Rightarrow> cv_fold" where
  "make_fold shuffle split_validation validation_ratio random_state buckets i =
     (let tv = carve_validation shuffle split_validation validation_ratio random_state
                 (training_pool buckets i)
      in \<lparr>train = fst tv, validation = snd tv, test = buckets ! i\<rparr>)"

text \<open>
  Modelled from the spec: \<open>leave_pair_out_cv\<close> itself, with the arguments in the order
  \<open>split_dataset\<close> passes them, returning "an ordered sequence of n_cv_splits fold
  descriptors".
\<close>

definition leave_pair_out_cv ::
  "shuffler \<Rightarrow> nat \<Rightarrow> real list \<Rightarrow> string list \<Rightarrow> string list \<Rightarrow> bool \<Rightarrow> real \<Rightarrow> int
     \<Rightarrow> cv_fold list" where
  "leave_pair_out_cv shuffle n_cv_splits resp cls drs split_validation validation_ratio
       random_state =
     (let buckets = lpo_buckets shuffle (length resp) n_cv_splits random_state
      in map (make_fold shuffle split_validation validation_ratio random_state buckets)
           [0..<n_cv_splits])"

subsection \<open>\<open>split_dataset\<close>\<close>

text \<open>
  \<open>DrugResponseDataset.split_dataset\<close>, with the dataset passed in and returned. The
  chain \<open>if mode == "LPO" ... elif mode == "LCO" ... elif mode == "LDO" ...\<close> has no
  \<open>else\<close>: for any other mode no branch runs, and the statement after the chain,
  \<open>self.cv_splits = cv_splits\<close>, reads the local variable \<open>cv_splits\<close>, which was never
  assigned. A raised exception leaves the dataset as it was.
\<close>

definition split_dataset ::
  "shuffler \<Rightarrow> DrugResponseDataset \<Rightarrow> nat \<Rightarrow> string \<Rightarrow> bool \<Rightarrow> real \<Rightarrow> int
     \<Rightarrow> (error + cv_fold list) \<times> DrugResponseDataset" where
  "split_dataset shuffle self n_cv_splits mode split_validation validation_ratio random_state =
     (if mode = ''LPO'' then
        (let cv = leave_pair_out_cv shuffle n_cv_splits (response self) (cell_line_ids self)
                    (drug_ids self) split_validation validation_ratio random_state
         in (Inr cv, self\<lparr>cv_splits := Some cv\<rparr>))
      else if mode = ''LCO'' then (Inl NotImplementedError, self)
      else if mode = ''LDO'' then (Inl NotImplementedError, self)
      else (Inl (UnboundLocalError ''cv_splits''), self))"

section \<open>The feature dataset\<close>

text \<open>
  \<open>features: Dict[str, Dict[str, np.ndarray]]\<close>. A Python dictionary keeps its keys in
  insertion order and \<open>list(d.keys())\<close> returns them in that order, so a dictionary is an
  association list here; a dictionary has no key twice. A feature vector is a list of
  numbers.
\<close>

type_synonym vec = "real list"

type_synonym view_dict = "(string \<times> vec) list"

type_synonym feature_dict = "(string \<times> view_dict) list"

text \<open>
  \<open>class FeatureDataset\<close>. The attribute \<open>identifier\<close> is the field \<open>identifier'\<close>.
\<close>

record FeatureDataset =
  features :: feature_dict
  view_names :: "string list"
  identifier' :: "string list"

text \<open>\<open>d[k]\<close>: the value stored under \<open>k\<close>, or \<open>KeyError(k)\<close>.\<close>

definition getitem :: "(string \<times> 'v) list \<Rightarrow> string \<Rightarrow> error + 'v" where
  "getitem d k = (case map_of d k of None \<Rightarrow> Inl (KeyError k) | Some v \<Rightarrow> Inr v)"

text \<open>\<open>self.features[entity][view]\<close>: the outer lookup first, then the inner one.\<close>

definition feature_vector :: "feature_dict \<Rightarrow> string \<Rightarrow> string \<Rightarrow> error + vec" where
  "feature_vector fs entity view =
     (case getitem fs entity of Inl e \<Rightarrow> Inl e | Inr vd \<Rightarrow> getitem vd view)"

text \<open>
  \<open>get_ids\<close> and \<open>get_view_names\<close> read \<open>self.features\<close> only (the constructor calls them
  before the other attributes exist), so they take the dictionary.
  \<open>get_view_names\<close> is \<open>list(self.features[list(self.features.keys())[0]].keys())\<close>:
  indexing the empty key list raises \<open>IndexError\<close>.
\<close>

definition get_ids :: "feature_dict \<Rightarrow> string list" where
  "get_ids fs = map fst fs"

definition get_view_names :: "feature_dict \<Rightarrow> error + string list" where
  "get_view_names fs =
     (case map fst fs of
        [] \<Rightarrow> Inl IndexError
      | k # _ \<Rightarrow> (case getitem fs k of Inl e \<Rightarrow> Inl e | Inr vd \<Rightarrow> Inr (map fst vd)))"

definition FeatureDataset_init :: "feature_dict \<Rightarrow> error + FeatureDataset" where
  "FeatureDataset_init fs =
     (case get_view_names fs of
        Inl e \<Rightarrow> Inl e
      | Inr vn \<Rightarrow> Inr \<lparr>features = fs, view_names = vn, identifier' = get_ids fs\<rparr>)"

subsection \<open>\<open>get_feature_matrix\<close>\<close>

text \<open>
  The list comprehension \<open>[self.features[identifier][view] for identifier in identifiers]\<close>
  evaluates the lookups in the order of \<open>identifiers\<close> and stops at the first that raises.
\<close>

fun collect_rows :: "feature_dict \<Rightarrow> string \<Rightarrow> string list \<Rightarrow> error + vec list" where
  "collect_rows fs view [] = Inr []"
| "collect_rows fs view (i # ids) =
     (case feature_vector fs i view of
        Inl e \<Rightarrow> Inl e
      | Inr v \<Rightarrow> (case collect_rows fs view ids of Inl e \<Rightarrow> Inl e | Inr rows \<Rightarrow> Inr (v # rows)))"

text \<open>
  \<open>np.stack\<close> of the NumPy library, on one-dimensional arrays: it raises \<open>ValueError\<close>
  when given no array ("need at least one array to stack") or arrays of different shapes
  ("all input arrays must have the same shape"), and otherwise returns the matrix whose
  rows are the arrays.
\<close>

definition np_stack :: "vec list \<Rightarrow> error + vec list" where
  "np_stack arrays =
     (case arrays of
        [] \<Rightarrow> Inl ValueError
      | a # as \<Rightarrow> if \<forall>b\<in>set as. length b = length a then Inr arrays else Inl ValueError)"

definition get_feature_matrix :: "FeatureDataset \<Rightarrow> string \<Rightarrow> string list \<Rightarrow> error + vec list" where
  "get_feature_matrix self view identifiers =
     (case collect_rows (features self) view identifiers of
        Inl e \<Rightarrow> Inl e
      | Inr rows \<Rightarrow> np_stack rows)"

subsection \<open>\<open>randomize_features\<close>\<close>

text \<open>
  The argument \<open>views_to_randomize: Union[str, list]\<close> is a string or a list of strings.
\<close>

datatype pyval = Str string | Lst "string list"

text \<open>
  Reading a local variable: the frame holds the variables bound so far, and reading a
  name the frame does not hold raises \<open>UnboundLocalError\<close>. (\<open>views\<close> is assigned in the
  body of \<open>randomize_features\<close>, which makes it a local variable of the function.)
\<close>

definition load_local :: "(string \<times> pyval) list \<Rightarrow> string \<Rightarrow> error + pyval" where
  "load_local frame name =
     (case map_of frame name of None \<Rightarrow> Inl (UnboundLocalError name) | Some v \<Rightarrow> Inr v)"

text \<open>\<open>view in views_to_randomize\<close>: substring test on a string, membership in a list.\<close>

fun py_in :: "string \<Rightarrow> pyval \<Rightarrow> bool" where
  "py_in v (Str s) = sublist v s"
| "py_in v (Lst l) = (v \<in> set l)"

text \<open>
  The process-global generator of \<open>np.random\<close>: its state is threaded through every
  draw. \<open>np_permutation\<close> is \<open>np.random.permutation\<close>; \<open>np_normal g v\<close> is
  \<open>np.random.normal(v.mean(), v.std(), v.shape)\<close>.
\<close>

record 'g np_random =
  np_permutation :: "'g \<Rightarrow> string list \<Rightarrow> string list \<times> 'g"
  np_normal :: "'g \<Rightarrow> vec \<Rightarrow> vec \<times> 'g"

text \<open>
  Mode "permutation". The inner dictionary comprehension pairs the view names of
  \<open>entity\<close> with the identifiers in permuted order, by position (\<open>zip\<close> stops at the
  shorter list); a targeted view takes the vector of the identifier it is paired with.
\<close>

fun permuted_views ::
  "feature_dict \<Rightarrow> pyval \<Rightarrow> string \<Rightarrow> (string \<times> string) list \<Rightarrow> error + view_dict" where
  "permuted_views fs views_to_randomize entity [] = Inr []"
| "permuted_views fs views_to_randomize entity ((view, other_entity) # rest) =
     (case feature_vector fs
             (if \<not> py_in view views_to_randomize then entity else other_entity) view of
        Inl e \<Rightarrow> Inl e
      | Inr v \<Rightarrow>
          (case permuted_views fs views_to_randomize entity rest of
             Inl e \<Rightarrow> Inl e
           | Inr d \<Rightarrow> Inr ((view, v) # d)))"

text \<open>
  The outer comprehension, over \<open>identifiers\<close>: \<open>np.random.permutation(identifiers)\<close> is
  inside the inner comprehension's \<open>zip\<close>, so it is drawn anew for every entity.
\<close>

fun permuted_entities ::
  "'g np_random \<Rightarrow> 'g \<Rightarrow> feature_dict \<Rightarrow> pyval \<Rightarrow> string list \<Rightarrow> string list
     \<Rightarrow> (error + feature_dict) \<times> 'g" where
  "permuted_entities rnd g fs views_to_randomize identifiers [] = (Inr [], g)"
| "permuted_entities rnd g fs views_to_randomize identifiers (entity # rest) =
     (case getitem fs entity of
        Inl e \<Rightarrow> (Inl e, g)
      | Inr vd \<Rightarrow>
          (case np_permutation rnd g identifiers of
             (perm, g') \<Rightarrow>
               (case permuted_views fs views_to_randomize entity (zip (map fst vd) perm) of
                  Inl e \<Rightarrow> (Inl e, g')
                | Inr vd' \<Rightarrow>
                    (case permuted_entities rnd g' fs views_to_randomize identifiers rest of
                       (Inl e, g'') \<Rightarrow> (Inl e, g'')
                     | (Inr d, g'') \<Rightarrow> (Inr ((entity, vd') # d), g'')))))"

text \<open>
  Modes "gaussian" and "zeroing" are the same pair of loops,
  \<open>for view in views: for identifier in self.get_ids(): self.features[identifier][view] = ...\<close>,
  with different right-hand sides, both computed from the vector stored so far. The
  assignment replaces the vector in place in the entity's dictionary; an exception
  leaves the assignments made before it.
\<close>

definition setitem2 :: "feature_dict \<Rightarrow> string \<Rightarrow> string \<Rightarrow> vec \<Rightarrow> feature_dict" where
  "setitem2 fs ident view v = AList.map_entry ident (AList.update view v) fs"

fun assign_entities ::
  "('g \<Rightarrow> vec \<Rightarrow> vec \<times> 'g) \<Rightarrow> 'g \<Rightarrow> feature_dict \<Rightarrow> string \<Rightarrow> string list
     \<Rightarrow> (error + unit) \<times> feature_dict \<times> 'g" where
  "assign_entities rhs g fs view [] = (Inr (), fs, g)"
| "assign_entities rhs g fs view (ident # rest) =
     (case feature_vector fs ident view of
        Inl e \<Rightarrow> (Inl e, fs, g)
      | Inr v \<Rightarrow>
          (case rhs g v of
             (v', g') \<Rightarrow> assign_entities rhs g' (setitem2 fs ident view v') view rest))"

fun assign_views ::
  "('g \<Rightarrow> vec \<Rightarrow> vec \<times> 'g) \<Rightarrow> 'g \<Rightarrow> feature_dict \<Rightarrow> string list
     \<Rightarrow> (error + unit) \<times> feature_dict \<times> 'g" where
  "assign_views rhs g fs [] = (Inr (), fs, g)"
| "assign_views rhs g fs (view # rest) =
     (case assign_entities rhs g fs view (get_ids fs) of
        (Inl e, fs', g') \<Rightarrow> (Inl e, fs', g')
      | (Inr u, fs', g') \<Rightarrow> assign_views rhs g' fs' rest)"

text \<open>\<open>np.zeros(v.shape)\<close>.\<close>

definition np_zeros_like :: "'g \<Rightarrow> vec \<Rightarrow> vec \<times> 'g" where
  "np_zeros_like g v = (replicate (length v) 0, g)"

text \<open>
  The body of \<open>randomize_features\<close> from line 152 on, with the local variable \<open>views\<close>
  bound to a list of view names.
\<close>

definition randomize_features_modes ::
  "'g np_random \<Rightarrow> 'g \<Rightarrow> feature_dict \<Rightarrow> pyval \<Rightarrow> string list \<Rightarrow> string
     \<Rightarrow> (error + unit) \<times> feature_dict \<times> 'g" where
  "randomize_features_modes rnd g fs views_to_randomize views mode =
     (if mode = ''permutation'' then
        (case permuted_entities rnd g fs views_to_randomize (get_ids fs) (get_ids fs) of
           (Inl e, g') \<Rightarrow> (Inl e, fs, g')
         | (Inr fs', g') \<Rightarrow> (Inr (), fs', g'))
      else if mode = ''gaussian'' then assign_views (np_normal rnd) g fs views
      else if mode = ''zeroing'' then assign_views np_zeros_like g fs views
      else (Inl ValueError, fs, g))"

text \<open>
  \<open>FeatureDataset.randomize_features(self, views_to_randomize, mode)\<close>. On entry the frame
  holds the parameters. The first statement, \<open>if isinstance(views, str): views = [views]\<close>,
  reads the local variable \<open>views\<close>.
\<close>

definition randomize_features ::
  "'g np_random \<Rightarrow> 'g \<Rightarrow> FeatureDataset \<Rightarrow> pyval \<Rightarrow> string
     \<Rightarrow> (error + unit) \<times> FeatureDataset \<times> 'g" where
  "randomize_features rnd g self views_to_randomize mode =
     (case load_local [(''views_to_randomize'', views_to_randomize), (''mode'', Str mode)]
             ''views'' of
        Inl e \<Rightarrow> (Inl e, self, g)
      | Inr views \<Rightarrow>
          (case randomize_features_modes rnd g (features self) views_to_randomize
                  (case views of Str s \<Rightarrow> [s] | Lst l \<Rightarrow> l) mode of
             (res, fs', g') \<Rightarrow> (res, self\<lparr>features := fs'\<rparr>, g')))"

section \<open>Example data\<close>

text \<open>
  Concrete inputs on which the theorems below are instantiated: a shuffle that rotates
  its argument by the seed, a response dataset of five records with the two folds the
  splitter computes for it, a feature dataset of three entities (entity \<open>c\<close> lacks
  \<open>viewB\<close>), and a generator whose permutations reverse their argument.
\<close>

definition rotate_shuffle :: shuffler where
  "rotate_shuffle seed xs = rotate (nat seed) xs"

definition example_responses :: DrugResponseDataset where
  "example_responses =
     \<lparr>target_type = ''IC50'', response = [1, 2, 3, 4, 5],
      cell_line_ids = [''c1'', ''c1'', ''c2'', ''c2'', ''c3''],
      drug_ids = [''d1'', ''d2'', ''d1'', ''d2'', ''d1''],
      predictions = None, cv_splits = None\<rparr>"

definition example_folds :: "cv_fold list" where
  "example_folds =
     [\<lparr>train = [0], validation = [1], test = [2, 3, 4]\<rparr>,
      \<lparr>train = [2], validation = [3, 4], test = [0, 1]\<rparr>]"

definition example_features :: feature_dict where
  "example_features =
     [(''a'', [(''viewA'', [1, 2]), (''viewB'', [3])]),
      (''b'', [(''viewA'', [4, 5]), (''viewB'', [6])]),
      (''c'', [(''viewA'', [7, 8])])]"

definition example_dataset :: FeatureDataset where
  "example_dataset =
     \<lparr>features = example_features, view_names = [''viewA'', ''viewB''],
      identifier' = [''a'', ''b'', ''c'']\<rparr>"

definition reverse_random :: "nat np_random" where
  "reverse_random =
     \<lparr>np_permutation = (\<lambda>g xs. (rev xs, Suc g)), np_normal = (\<lambda>g v. (v, Suc g))\<rparr>"

section \<open>Properties of the splitter\<close>

lemma sum_list_sizes_aux:
  "sum_list (map (\<lambda>i. a + (if i < b then 1 else 0)) [0..<j]) = j * a + min j b"
  by (induction j) auto

lemma sum_list_fold_sizes: "0 < k \<Longrightarrow> sum_list (fold_sizes n k) = n"
proof -
  assume k: "0 < k"
  have "sum_list (fold_sizes n k) = k * (n div k) + min k (n mod k)"
    unfolding fold_sizes_def by (rule sum_list_sizes_aux)
  also have "min k (n mod k) = n mod k"
    using k by (simp add: min_absorb2 less_imp_le)
  finally show ?thesis by simp
qed

lemma length_fold_sizes: "length (fold_sizes n k) = k"
  by (simp add: fold_sizes_def)

lemma fold_sizes_balanced:
  "a \<in> set (fold_sizes n k) \<Longrightarrow> b \<in> set (fold_sizes n k) \<Longrightarrow> a \<le> b + 1"
  by (auto simp: fold_sizes_def)

lemma length_chunk: "length (chunk ss xs) = length ss"
  by (induction ss arbitrary: xs) auto

lemma concat_chunk: "concat (chunk ss xs) = take (sum_list ss) xs"
  by (induction ss arbitrary: xs) (auto simp: take_add)

lemma distinct_concat_nth_disjoint:
  assumes "distinct (concat xss)" and "i < length xss"
  shows "set (xss ! i) \<inter> set (concat (take i xss @ drop (Suc i) xss)) = {}"
    and "distinct (concat (take i xss @ drop (Suc i) xss))"
    and "distinct (xss ! i)"
    and "set (xss ! i) \<union> set (concat (take i xss @ drop (Suc i) xss)) = set (concat xss)"
    and "length (xss ! i) + length (concat (take i xss @ drop (Suc i) xss)) = length (concat xss)"
proof -
  have eq: "xss = take i xss @ xss ! i # drop (Suc i) xss"
    using assms(2) by (rule id_take_nth_drop)
  have d: "distinct (concat (take i xss @ xss ! i # drop (Suc i) xss))"
    using assms(1) eq by simp
  show "set (xss ! i) \<inter> set (concat (take i xss @ drop (Suc i) xss)) = {}"
    using d by auto
  show "distinct (concat (take i xss @ drop (Suc i) xss))"
    using d by auto
  show "distinct (xss ! i)" using d by auto
  have "set (concat xss) = set (concat (take i xss @ xss ! i # drop (Suc i) xss))"
    using eq by simp
  then show "set (xss ! i) \<union> set (concat (take i xss @ drop (Suc i) xss)) = set (concat xss)"
    by auto
  have "length (concat xss) = length (concat (take i xss @ xss ! i # drop (Suc i) xss))"
    using eq by simp
  then show "length (xss ! i) + length (concat (take i xss @ drop (Suc i) xss)) = length (concat xss)"
    by simp
qed


lemma nth_take_drop_other:
  assumes "j < length xs" and "j \<noteq> i"
  shows "xs ! j \<in> set (take i xs @ drop (Suc i) xs)"
proof (cases "j < i")
  case True
  then have "take i xs ! j = xs ! j" by simp
  moreover have "j < length (take i xs)" using True assms(1) by simp
  ultimately have "xs ! j \<in> set (take i xs)" by (metis nth_mem)
  then show ?thesis by simp
next
  case False
  with assms(2) have gt: "Suc i \<le> j" by simp
  then have "drop (Suc i) xs ! (j - Suc i) = xs ! j"
    using assms(1) by simp
  moreover have "j - Suc i < length (drop (Suc i) xs)"
    using gt assms(1) by simp
  ultimately have "xs ! j \<in> set (drop (Suc i) xs)" by (metis nth_mem)
  then show ?thesis by simp
qed

lemma distinct_concat_pairwise_disjoint:
  assumes "distinct (concat xss)" and "i < length xss" and "j < length xss" and "i \<noteq> j"
  shows "set (xss ! i) \<inter> set (xss ! j) = {}"
proof -
  have "xss ! j \<in> set (take i xss @ drop (Suc i) xss)"
    using assms(3,4) by (intro nth_take_drop_other) auto
  then have "set (xss ! j) \<subseteq> set (concat (take i xss @ drop (Suc i) xss))"
    by auto
  with distinct_concat_nth_disjoint(1) [OF assms(1,2)] show ?thesis by blast
qed

lemma Union_nth_concat: "(\<Union>i<length xss. set (xss ! i)) = set (concat xss)"
proof (intro set_eqI iffI)
  fix x assume "x \<in> (\<Union>i<length xss. set (xss ! i))"
  then obtain i where "i < length xss" "x \<in> set (xss ! i)" by auto
  then show "x \<in> set (concat xss)" by (auto intro: nth_mem)
next
  fix x assume "x \<in> set (concat xss)"
  then obtain ys where "ys \<in> set xss" "x \<in> set ys" by auto
  then obtain i where "i < length xss" "xss ! i = ys" by (auto simp: in_set_conv_nth)
  with \<open>x \<in> set ys\<close> show "x \<in> (\<Union>i<length xss. set (xss ! i))" by auto
qed

lemma lpo_buckets_props:
  assumes perm: "\<And>xs. mset (shuffle seed xs) = mset xs" and k: "0 < k"
  shows "length (lpo_buckets shuffle n k seed) = k"
    and "distinct (concat (lpo_buckets shuffle n k seed))"
    and "set (concat (lpo_buckets shuffle n k seed)) = {0..<n}"
    and "length (concat (lpo_buckets shuffle n k seed)) = n"
proof -
  let ?p = "shuffle seed [0..<n]"
  have m: "mset ?p = mset [0..<n]" by (rule perm)
  have len: "length ?p = n" using m by (metis mset_eq_length length_upt diff_zero)
  have cc: "concat (lpo_buckets shuffle n k seed) = ?p"
    by (simp add: lpo_buckets_def concat_chunk sum_list_fold_sizes [OF k] len)
  show "length (lpo_buckets shuffle n k seed) = k"
    by (simp add: lpo_buckets_def length_chunk length_fold_sizes)
  show "distinct (concat (lpo_buckets shuffle n k seed))"
    using m cc by (metis distinct_upt mset_eq_imp_distinct_iff)
  show "set (concat (lpo_buckets shuffle n k seed)) = {0..<n}"
    using m cc by (metis mset_eq_setD atLeastLessThan_upt)
  show "length (concat (lpo_buckets shuffle n k seed)) = n"
    using cc len by simp
qed

lemma leave_pair_out_cv_nth:
  "i < k \<Longrightarrow>
   leave_pair_out_cv shuffle k resp cls drs sv r seed ! i =
     make_fold shuffle sv r seed (lpo_buckets shuffle (length resp) k seed) i"
  by (simp add: leave_pair_out_cv_def Let_def)

lemma length_leave_pair_out_cv:
  "length (leave_pair_out_cv shuffle k resp cls drs sv r seed) = k"
  by (simp add: leave_pair_out_cv_def Let_def)

lemma test_make_fold: "test (make_fold shuffle sv r seed buckets i) = buckets ! i"
  by (simp add: make_fold_def Let_def)

lemma split_dataset_LPO:
  "split_dataset shuffle ds k ''LPO'' sv r seed =
     (Inr (leave_pair_out_cv shuffle k (response ds) (cell_line_ids ds) (drug_ids ds) sv r seed),
      ds\<lparr>cv_splits := Some (leave_pair_out_cv shuffle k (response ds) (cell_line_ids ds)
                               (drug_ids ds) sv r seed)\<rparr>)"
  by (simp add: split_dataset_def Let_def)

lemma mset_rotate1_eq: "mset (rotate1 xs) = mset xs"
  by (cases xs) simp_all

lemma mset_rotate_eq: "mset (rotate n xs) = mset xs"
  by (induction n) (simp_all add: mset_rotate1_eq)

lemma mset_rotate_shuffle: "mset (rotate_shuffle seed xs) = mset xs"
  by (simp add: rotate_shuffle_def mset_rotate_eq)

lemma example_run:
  "split_dataset rotate_shuffle example_responses 2 ''LPO'' True (1/2) 7 =
     (Inr example_folds, example_responses\<lparr>cv_splits := Some example_folds\<rparr>)"
  by code_simp

section \<open>Leave-pair-out folds\<close>

lemma lpo_test_partition_pos:
  assumes perm: "\<And>xs. mset (shuffle seed xs) = mset xs"
    and k: "0 < k"
    and run: "split_dataset shuffle ds k ''LPO'' sv r seed = (res, ds')"
  shows "\<exists>folds. res = Inr folds \<and> length folds = k
      \<and> (\<forall>i<k. \<forall>j<k. i \<noteq> j \<longrightarrow> set (test (folds ! i)) \<inter> set (test (folds ! j)) = {})
      \<and> (\<Union>i<k. set (test (folds ! i))) = {0..<length (response ds)}
      \<and> (\<forall>x<length (response ds). \<exists>!i. i < k \<and> x \<in> set (test (folds ! i)))
      \<and> (\<forall>i<k. distinct (test (folds ! i)))"
proof -
  let ?n = "length (response ds)"
  let ?b = "lpo_buckets shuffle ?n k seed"
  let ?folds = "leave_pair_out_cv shuffle k (response ds) (cell_line_ids ds) (drug_ids ds) sv r seed"
  note bp = lpo_buckets_props [where shuffle = shuffle and seed = seed and k = k and n = ?n,
      OF perm k]
  have res: "res = Inr ?folds" using run by (simp add: split_dataset_LPO)
  have tst: "test (?folds ! i) = ?b ! i" if "i < k" for i
    using that by (simp add: leave_pair_out_cv_nth test_make_fold)
  have disj: "set (?b ! i) \<inter> set (?b ! j) = {}" if "i < k" "j < k" "i \<noteq> j" for i j
    using that bp(1) by (intro distinct_concat_pairwise_disjoint [OF bp(2)]) auto
  have un: "(\<Union>i<k. set (?b ! i)) = {0..<?n}"
    using Union_nth_concat [of ?b] bp(1,3) by simp
  have ex1: "\<exists>!i. i < k \<and> x \<in> set (?b ! i)" if "x < ?n" for x
  proof -
    from that un have "x \<in> (\<Union>i<k. set (?b ! i))" by simp
    then obtain i where i: "i < k" "x \<in> set (?b ! i)" by auto
    show ?thesis
    proof (rule ex1I [of _ i])
      show "i < k \<and> x \<in> set (?b ! i)" using i by simp
    next
      fix j assume j: "j < k \<and> x \<in> set (?b ! j)"
      show "j = i"
      proof (rule ccontr)
        assume "j \<noteq> i"
        then have "set (?b ! i) \<inter> set (?b ! j) = {}" using disj i(1) j by auto
        with i(2) j show False by auto
      qed
    qed
  qed
  have dist: "distinct (?b ! i)" if "i < k" for i
    using that bp(1) distinct_concat_nth_disjoint(3) [OF bp(2), of i] by simp
  have "length ?folds = k" by (rule length_leave_pair_out_cv)
  moreover have "\<forall>i<k. \<forall>j<k. i \<noteq> j \<longrightarrow> set (test (?folds ! i)) \<inter> set (test (?folds ! j)) = {}"
    using disj tst by simp
  moreover have "(\<Union>i<k. set (test (?folds ! i))) = {0..<?n}"
    using un tst by simp
  moreover have "\<forall>x<?n. \<exists>!i. i < k \<and> x \<in> set (test (?folds ! i))"
  proof (intro allI impI)
    fix x assume "x < ?n"
    from ex1 [OF this] obtain i where i: "i < k" "x \<in> set (?b ! i)"
      and u: "\<And>j. j < k \<and> x \<in> set (?b ! j) \<Longrightarrow> j = i" by auto
    show "\<exists>!i. i < k \<and> x \<in> set (test (?folds ! i))"
    proof (rule ex1I [of _ i])
      show "i < k \<and> x \<in> set (test (?folds ! i))" using i tst by simp
    next
      fix j assume "j < k \<and> x \<in> set (test (?folds ! j))"
      then have "j < k \<and> x \<in> set (?b ! j)" using tst by auto
      then show "j = i" by (rule u)
    qed
  qed
  moreover have "\<forall>i<k. distinct (test (?folds ! i))"
    using dist tst by simp
  ultimately show ?thesis using res by blast
qed

text \<open>
  C1 (amended). For a dataset with \<open>N\<close> records (\<open>N\<close> the length of \<open>response\<close>) and every
  \<open>k\<close>, \<open>split_dataset\<close> in mode "LPO" returns \<open>k\<close> fold descriptors whose test sets are
  pairwise disjoint; if \<open>k\<close> is at least 1, their union is \<open>{0..N-1}\<close> and every record index
  is in the test set of exactly one fold; if \<open>k\<close> is 0, no fold is returned. The shuffle is
  any function that returns a permutation of its argument.
\<close>

theorem split_dataset_LPO_test_partition:
  assumes perm: "\<And>xs. mset (shuffle seed xs) = mset xs"
    and run: "split_dataset shuffle ds k ''LPO'' sv r seed = (res, ds')"
  shows "\<exists>folds. res = Inr folds \<and> length folds = k
      \<and> (\<forall>i<k. \<forall>j<k. i \<noteq> j \<longrightarrow> set (test (folds ! i)) \<inter> set (test (folds ! j)) = {})
      \<and> (\<forall>i<k. distinct (test (folds ! i)))
      \<and> (0 < k \<longrightarrow>
            (\<Union>i<k. set (test (folds ! i))) = {0..<length (response ds)}
          \<and> (\<forall>x<length (response ds). \<exists>!i. i < k \<and> x \<in> set (test (folds ! i))))
      \<and> (k = 0 \<longrightarrow> folds = [])"
proof (cases "k = 0")
  case True
  let ?folds = "leave_pair_out_cv shuffle k (response ds) (cell_line_ids ds) (drug_ids ds) sv r seed"
  have "res = Inr ?folds" using run by (simp add: split_dataset_LPO)
  moreover have "length ?folds = k" by (rule length_leave_pair_out_cv)
  ultimately show ?thesis using True by simp
next
  case False
  then have k: "0 < k" by simp
  from lpo_test_partition_pos [of shuffle seed k ds sv r res ds', OF perm k run]
  show ?thesis using k by blast
qed

text \<open>
  The theorem at the example dataset: two folds with the test sets \<open>[2, 3, 4]\<close> and
  \<open>[0, 1]\<close>, which cover the five records.
\<close>

theorem split_dataset_LPO_test_partition_witness:
  "split_dataset rotate_shuffle example_responses 2 ''LPO'' True (1/2) 7 =
     (Inr example_folds, example_responses\<lparr>cv_splits := Some example_folds\<rparr>)
   \<and> length example_folds = 2
   \<and> set (test (example_folds ! 0)) \<inter> set (test (example_folds ! 1)) = {}
   \<and> (\<Union>i<2. set (test (example_folds ! i))) = {0..<length (response example_responses)}
   \<and> distinct (test (example_folds ! 0))"
proof -
  from split_dataset_LPO_test_partition [of rotate_shuffle 7 example_responses 2 True "1/2",
      OF mset_rotate_shuffle example_run]
  obtain folds where f: "Inr example_folds = (Inr folds :: error + cv_fold list)"
    and len: "length folds = 2"
    and disj: "\<forall>i<2. \<forall>j<2. i \<noteq> j \<longrightarrow> set (test (folds ! i)) \<inter> set (test (folds ! j)) = {}"
    and dist: "\<forall>i<2. distinct (test (folds ! i))"
    and un: "(0::nat) < 2 \<longrightarrow>
        (\<Union>i<2. set (test (folds ! i))) = {0..<length (response example_responses)}
        \<and> (\<forall>x<length (response example_responses). \<exists>!i. i < 2 \<and> x \<in> set (test (folds ! i)))"
    by (elim exE conjE)
  from f have e: "example_folds = folds" by simp
  have g1: "length example_folds = 2" using len by (simp only: e)
  have "set (test (folds ! 0)) \<inter> set (test (folds ! 1)) = {}"
    using disj [rule_format, of 0 1] by simp
  then have g2: "set (test (example_folds ! 0)) \<inter> set (test (example_folds ! 1)) = {}"
    by (simp only: e)
  have "(\<Union>i<2. set (test (folds ! i))) = {0..<length (response example_responses)}"
    using un [rule_format, THEN conjunct1] by simp
  then have g3: "(\<Union>i<2. set (test (example_folds ! i))) =
      {0..<length (response example_responses)}"
    by (simp only: e)
  have "distinct (test (folds ! 0))" using dist [rule_format, of 0] by simp
  then have g4: "distinct (test (example_folds ! 0))" by (simp only: e)
  show ?thesis by (intro conjI example_run g1 g2 g3 g4)
qed

text \<open>
  C1 as stated fails for \<open>n_cv_splits = 0\<close>: no fold descriptor is returned, so the test sets
  cover none of the five records of the example dataset. (No sequence of zero folds can
  cover a dataset that has a record.)
\<close>

theorem split_dataset_LPO_no_splits:
  "split_dataset rotate_shuffle example_responses 0 ''LPO'' True (1/2) 7 =
     (Inr [], example_responses\<lparr>cv_splits := Some []\<rparr>)
   \<and> set (concat (map test ([] :: cv_fold list))) \<noteq> {0..<length (response example_responses)}"
proof -
  have "split_dataset rotate_shuffle example_responses 0 ''LPO'' True (1/2) 7 =
     (Inr [], example_responses\<lparr>cv_splits := Some []\<rparr>)"
    by code_simp
  moreover have "(0::nat) \<in> {0..<length (response example_responses)}"
    by (simp add: example_responses_def)
  then have "{0..<length (response example_responses)} \<noteq> {}" by blast
  then have "set (concat (map test ([] :: cv_fold list))) \<noteq>
      {0..<length (response example_responses)}"
    by simp
  ultimately show ?thesis by (rule conjI)
qed








text \<open>
  \<open>split_dataset\<close> reads only \<open>response\<close>, \<open>cell_line_ids\<close> and \<open>drug_ids\<close> of the
  dataset: predictions and splits cached by an earlier call do not enter its result.
\<close>

lemma split_dataset_reads_core_fields:
  assumes "response ds2 = response ds1" and "cell_line_ids ds2 = cell_line_ids ds1"
    and "drug_ids ds2 = drug_ids ds1"
  shows "fst (split_dataset shuffle ds2 k mode sv r seed) =
         fst (split_dataset shuffle ds1 k mode sv r seed)"
  using assms by (simp add: split_dataset_def Let_def)

section \<open>Construction of a drug response dataset\<close>

text \<open>
  C4 (amended). Constructing a DrugResponseDataset never fails: whatever the lengths of
  \<open>response\<close>, \<open>cell_line_ids\<close> and \<open>drug_ids\<close>, the constructor stores the three
  sequences and the target type as given, with no predictions and no cached splits. No
  length is checked.
\<close>

theorem DrugResponseDataset_init_total:
  "\<exists>ds. DrugResponseDataset_init tt resp cls drs = Inr ds
        \<and> target_type ds = tt \<and> response ds = resp \<and> cell_line_ids ds = cls
        \<and> drug_ids ds = drs \<and> predictions ds = None \<and> cv_splits ds = None"
  by (simp add: DrugResponseDataset_init_def)

text \<open>
  C4 as stated fails: a response sequence of length one with empty identifier sequences
  is accepted, and the constructed dataset has sequences of different lengths.
\<close>

theorem DrugResponseDataset_init_unequal_lengths:
  "DrugResponseDataset_init ''IC50'' [1] [] [] =
     Inr \<lparr>target_type = ''IC50'', response = [1], cell_line_ids = [], drug_ids = [],
          predictions = None, cv_splits = None\<rparr>
   \<and> length [1::real] \<noteq> length ([]::string list)"
  by (simp add: DrugResponseDataset_init_def)

section \<open>Split modes\<close>

text \<open>
  C5. A mode string that is none of "LPO", "LCO", "LDO" should fail with InvalidArgument
  (\<open>ValueError\<close>). The code, at mode "XYZ", raises \<open>UnboundLocalError\<close> for \<open>cv_splits\<close>
  instead.
\<close>

theorem split_dataset_unknown_mode:
  "split_dataset rotate_shuffle example_responses 5 ''XYZ'' True (1/10) 42 =
     (Inl (UnboundLocalError ''cv_splits''), example_responses)
   \<and> UnboundLocalError ''cv_splits'' \<noteq> ValueError"
  by (simp add: split_dataset_def)

text \<open>
  C6. With mode "LCO" or "LDO", \<open>split_dataset\<close> fails with \<open>NotImplementedError\<close> and the
  dataset is unchanged.
\<close>

theorem split_dataset_LCO_LDO:
  "mode = ''LCO'' \<or> mode = ''LDO'' \<Longrightarrow>
   split_dataset shuffle ds k mode sv r seed = (Inl NotImplementedError, ds)"
  by (auto simp: split_dataset_def)

theorem split_dataset_LCO_LDO_witness:
  "split_dataset rotate_shuffle example_responses 2 ''LCO'' True (1/10) 42 =
     (Inl NotImplementedError, example_responses)
   \<and> split_dataset rotate_shuffle example_responses 2 ''LDO'' True (1/10) 42 =
     (Inl NotImplementedError, example_responses)"
  using split_dataset_LCO_LDO [of "''LCO''" rotate_shuffle example_responses 2 True "1/10" 42]
    split_dataset_LCO_LDO [of "''LDO''" rotate_shuffle example_responses 2 True "1/10" 42]
  by simp

section \<open>Feature randomization\<close>

text \<open>
  \<open>randomize_features\<close> never gets past its first statement: \<open>views\<close> is not a
  parameter (the parameter is \<open>views_to_randomize\<close>), so reading it raises
  \<open>UnboundLocalError\<close> whatever the arguments, and the dataset is unchanged.
\<close>

lemma randomize_features_unbound:
  "randomize_features rnd g self views_to_randomize mode =
     (Inl (UnboundLocalError ''views''), self, g)"
  by (simp add: randomize_features_def load_local_def)

text \<open>
  What the mode branches would compute with \<open>views\<close> bound. The zeroing loops replace
  the targeted view of every entity by zeros of the same length and leave the other view
  as it is. The permutation comprehension, with a generator that always reverses, gives
  every entity the \<open>viewA\<close> vector of \<open>c\<close> (so \<open>c\<close> keeps its own): it draws one
  permutation per entity and pairs the permuted identifiers with the view names by
  position, so the result is not a permutation of the entities' vectors.
\<close>

lemma zeroing_loops_example:
  "randomize_features_modes reverse_random 0 example_features (Lst [''viewA'']) [''viewA'']
     ''zeroing'' =
   (Inr (),
    [(''a'', [(''viewA'', [0, 0]), (''viewB'', [3])]),
     (''b'', [(''viewA'', [0, 0]), (''viewB'', [6])]),
     (''c'', [(''viewA'', [0, 0])])], 0)"
  by code_simp

lemma permutation_comprehension_example:
  "randomize_features_modes reverse_random 0 example_features (Lst [''viewA'']) [''viewA'']
     ''permutation'' =
   (Inr (),
    [(''a'', [(''viewA'', [7, 8]), (''viewB'', [3])]),
     (''b'', [(''viewA'', [7, 8]), (''viewB'', [6])]),
     (''c'', [(''viewA'', [7, 8])])], 3)"
  by code_simp

text \<open>
  C7. In mode "permutation" each entity's vector for every targeted view should be
  replaced by the vector of the entity that one permutation, sampled once per call,
  assigns to it. The code, called on the example dataset with \<open>["viewA"]\<close>, raises
  \<open>UnboundLocalError\<close> for \<open>views\<close> and permutes nothing.
\<close>

theorem randomize_features_permutation_raises:
  "randomize_features reverse_random 0 example_dataset (Lst [''viewA'']) ''permutation'' =
     (Inl (UnboundLocalError ''views''), example_dataset, 0)"
  by (rule randomize_features_unbound)

text \<open>
  C8. \<open>randomize_features(["viewA"], "zeroing")\<close> should set every entity's \<open>viewA\<close>
  vector to zeros of the same shape and leave the other views as they are. The code,
  called on the example dataset, raises \<open>UnboundLocalError\<close> for \<open>views\<close> and zeroes
  nothing.
\<close>

theorem randomize_features_zeroing_raises:
  "randomize_features reverse_random 0 example_dataset (Lst [''viewA'']) ''zeroing'' =
     (Inl (UnboundLocalError ''views''), example_dataset, 0)"
  by (rule randomize_features_unbound)

section \<open>Feature matrices\<close>

lemma collect_rows_first_failure:
  assumes "\<forall>j\<in>set pre. \<exists>v. feature_vector fs j view = Inr v"
    and "feature_vector fs i view = Inl e"
  shows "collect_rows fs view (pre @ i # post) = Inl e"
  using assms by (induction pre) auto

lemma collect_rows_all_present:
  assumes "\<forall>j\<in>set ids. \<exists>vd v. map_of fs j = Some vd \<and> map_of vd view = Some v"
  shows "collect_rows fs view ids = Inr (map (\<lambda>j. the (map_of (the (map_of fs j)) view)) ids)"
  using assms by (induction ids) (auto simp: feature_vector_def getitem_def)

text \<open>
  C9 (amended). \<open>get_feature_matrix\<close> looks the identifiers up in the given order and
  fails at the first lookup that fails. Let the identifiers \<open>pre\<close> all be present in
  \<open>features\<close> with the view. If the next identifier \<open>i\<close> is absent from \<open>features\<close>, the
  call fails with \<open>KeyError i\<close> (MissingEntity); if \<open>i\<close> is present and its dictionary
  lacks the view, the call fails with \<open>KeyError view\<close> (MissingView). If \<open>pre\<close> is the
  whole sequence, is not empty and the stored vectors all have the same length, the
  call returns the matrix whose row \<open>n\<close> is the stored vector of identifier \<open>n\<close>; for the
  empty sequence, and for stored vectors of different lengths, \<open>np.stack\<close> raises
  \<open>ValueError\<close>.
\<close>

theorem get_feature_matrix_first_failure:
  assumes pre: "\<forall>j\<in>set pre. \<exists>vd v. map_of (features self) j = Some vd \<and> map_of vd view = Some v"
  shows "(map_of (features self) i = None \<longrightarrow>
            get_feature_matrix self view (pre @ i # post) = Inl (KeyError i))
       \<and> ((\<exists>vd. map_of (features self) i = Some vd \<and> map_of vd view = None) \<longrightarrow>
            get_feature_matrix self view (pre @ i # post) = Inl (KeyError view))
       \<and> (pre \<noteq> [] \<and> (\<forall>j\<in>set pre. length (the (map_of (the (map_of (features self) j)) view))
                                   = length (the (map_of (the (map_of (features self) (hd pre))) view))) \<longrightarrow>
            get_feature_matrix self view pre =
              Inr (map (\<lambda>j. the (map_of (the (map_of (features self) j)) view)) pre))
       \<and> (pre = [] \<or> (\<exists>j\<in>set pre. length (the (map_of (the (map_of (features self) j)) view))
                                   \<noteq> length (the (map_of (the (map_of (features self) (hd pre))) view))) \<longrightarrow>
            get_feature_matrix self view pre = Inl ValueError)"
proof -
  let ?fs = "features self"
  let ?vec = "\<lambda>j. the (map_of (the (map_of ?fs j)) view)"
  have ok: "\<forall>j\<in>set pre. \<exists>v. feature_vector ?fs j view = Inr v"
    using pre by (fastforce simp: feature_vector_def getitem_def)
  have rows: "collect_rows ?fs view pre = Inr (map ?vec pre)"
    using pre by (rule collect_rows_all_present)
  have A: "get_feature_matrix self view (pre @ i # post) = Inl (KeyError i)"
    if "map_of ?fs i = None"
  proof -
    have "feature_vector ?fs i view = Inl (KeyError i)"
      using that by (simp add: feature_vector_def getitem_def)
    with ok have "collect_rows ?fs view (pre @ i # post) = Inl (KeyError i)"
      by (rule collect_rows_first_failure)
    then show ?thesis by (simp add: get_feature_matrix_def)
  qed
  have B: "get_feature_matrix self view (pre @ i # post) = Inl (KeyError view)"
    if "\<exists>vd. map_of ?fs i = Some vd \<and> map_of vd view = None"
  proof -
    have "feature_vector ?fs i view = Inl (KeyError view)"
      using that by (auto simp: feature_vector_def getitem_def)
    with ok have "collect_rows ?fs view (pre @ i # post) = Inl (KeyError view)"
      by (rule collect_rows_first_failure)
    then show ?thesis by (simp add: get_feature_matrix_def)
  qed
  have C: "get_feature_matrix self view pre = Inr (map ?vec pre)"
    if "pre \<noteq> []" and "\<forall>j\<in>set pre. length (?vec j) = length (?vec (hd pre))"
  proof -
    from that(1) obtain p ps where p: "pre = p # ps" by (cases pre) auto
    have "np_stack (map ?vec pre) = Inr (map ?vec pre)"
      using that(2) unfolding p by (simp add: np_stack_def)
    then show ?thesis using rows by (simp add: get_feature_matrix_def)
  qed
  have D: "get_feature_matrix self view pre = Inl ValueError" if "pre = []"
    using that by (simp add: get_feature_matrix_def np_stack_def)
  have E: "get_feature_matrix self view pre = Inl ValueError"
    if "\<exists>j\<in>set pre. length (?vec j) \<noteq> length (?vec (hd pre))"
  proof -
    from that obtain p ps where p: "pre = p # ps" by (cases pre) auto
    from that have "\<exists>j\<in>set ps. length (?vec j) \<noteq> length (?vec p)"
      unfolding p by auto
    then have "np_stack (map ?vec pre) = Inl ValueError"
      unfolding p by (auto simp: np_stack_def)
    then show ?thesis using rows by (simp add: get_feature_matrix_def)
  qed
  show ?thesis using A B C D E by blast
qed

text \<open>
  The theorem at the example dataset: \<open>d\<close> is absent, \<open>c\<close> lacks \<open>viewB\<close>, and the rows of
  \<open>a\<close> and \<open>b\<close> stack.
\<close>

theorem get_feature_matrix_first_failure_witness:
  "get_feature_matrix example_dataset ''viewA'' [''a'', ''b'', ''d''] = Inl (KeyError ''d'')
   \<and> get_feature_matrix example_dataset ''viewB'' [''a'', ''b'', ''c''] = Inl (KeyError ''viewB'')
   \<and> get_feature_matrix example_dataset ''viewA'' [''a'', ''b''] = Inr [[1, 2], [4, 5]]"
proof -
  have A: "\<forall>j\<in>set [''a'', ''b'']. \<exists>vd v.
      map_of (features example_dataset) j = Some vd \<and> map_of vd ''viewA'' = Some v"
    by (simp add: example_dataset_def example_features_def)
  have B: "\<forall>j\<in>set [''a'', ''b'']. \<exists>vd v.
      map_of (features example_dataset) j = Some vd \<and> map_of vd ''viewB'' = Some v"
    by (simp add: example_dataset_def example_features_def)
  have "get_feature_matrix example_dataset ''viewA'' ([''a'', ''b''] @ ''d'' # []) =
      Inl (KeyError ''d'')"
    using get_feature_matrix_first_failure [OF A, of "''d''" "[]"]
    by (simp add: example_dataset_def example_features_def)
  moreover have "get_feature_matrix example_dataset ''viewB'' ([''a'', ''b''] @ ''c'' # []) =
      Inl (KeyError ''viewB'')"
    using get_feature_matrix_first_failure [OF B, of "''c''" "[]"]
    by (simp add: example_dataset_def example_features_def)
  moreover have "get_feature_matrix example_dataset ''viewA'' [''a'', ''b''] =
      Inr [[1, 2], [4, 5]]"
    using get_feature_matrix_first_failure [OF A, of "''d''" "[]"]
    by (simp add: example_dataset_def example_features_def)
  ultimately show ?thesis by simp
qed

text \<open>
  C9 as stated fails. In the sequence \<open>["c", "d"]\<close> the identifier \<open>d\<close> is absent from
  \<open>features\<close>, yet the call fails with the \<open>KeyError\<close> of the view (MissingView), not of
  \<open>d\<close> (MissingEntity), because \<open>c\<close>, which lacks \<open>viewB\<close>, is looked up first. For the
  empty sequence no identifier is absent and no view is missing, yet the call returns no
  matrix: it fails with \<open>ValueError\<close>.
\<close>

theorem get_feature_matrix_counterexample:
  "get_feature_matrix example_dataset ''viewB'' [''c'', ''d''] = Inl (KeyError ''viewB'')
   \<and> map_of (features example_dataset) ''d'' = None
   \<and> KeyError ''viewB'' \<noteq> KeyError ''d''
   \<and> get_feature_matrix example_dataset ''viewA'' [] = Inl ValueError"
  by code_simp

section \<open>Construction of a feature dataset\<close>

lemma example_init: "FeatureDataset_init example_features = Inr example_dataset"
  by code_simp

text \<open>
  C10. Constructing a FeatureDataset from the empty mapping fails (with \<open>IndexError\<close>);
  from a mapping with a first entity it succeeds, and \<open>view_names\<close> and \<open>get_view_names\<close>
  are the view keys of that first entity, whatever the other entities are. So every
  successfully constructed FeatureDataset has at least one entity.
\<close>

theorem FeatureDataset_init_nonempty:
  "FeatureDataset_init [] = Inl IndexError
   \<and> FeatureDataset_init ((e, vd) # rest) =
       Inr \<lparr>features = (e, vd) # rest, view_names = map fst vd, identifier' = e # map fst rest\<rparr>
   \<and> get_view_names ((e, vd) # rest) = Inr (map fst vd)
   \<and> (FeatureDataset_init fs = Inr fd \<longrightarrow>
        fs \<noteq> [] \<and> features fd = fs \<and> view_names fd = map fst (snd (hd fs))
        \<and> get_view_names (features fd) = Inr (map fst (snd (hd fs))))"
proof -
  have gv: "get_view_names ((e, vd) # rest) = Inr (map fst vd)" for e vd and rest :: feature_dict
    by (simp add: get_view_names_def getitem_def)
  have e: "FeatureDataset_init [] = Inl IndexError"
    by (simp add: FeatureDataset_init_def get_view_names_def)
  have c: "FeatureDataset_init ((e, vd) # rest) =
       Inr \<lparr>features = (e, vd) # rest, view_names = map fst vd, identifier' = e # map fst rest\<rparr>"
    for e vd rest
    by (simp add: FeatureDataset_init_def gv get_ids_def)
  have i: "fs \<noteq> [] \<and> features fd = fs \<and> view_names fd = map fst (snd (hd fs))
        \<and> get_view_names (features fd) = Inr (map fst (snd (hd fs)))"
    if "FeatureDataset_init fs = Inr fd"
  proof (cases fs)
    case Nil
    with that e show ?thesis by simp
  next
    case (Cons p rest)
    obtain k vd where p: "p = (k, vd)" by (cases p)
    from that have "fd = \<lparr>features = (k, vd) # rest, view_names = map fst vd, identifier' = k # map fst rest\<rparr>"
      unfolding Cons p c by simp
    then show ?thesis by (simp add: Cons p gv)
  qed
  show ?thesis using e c gv i by blast
qed

text \<open>
  The theorem at the example features: the view names are those of entity \<open>a\<close>, although
  entity \<open>c\<close> has only \<open>viewA\<close>.
\<close>

theorem FeatureDataset_init_nonempty_witness:
  "FeatureDataset_init example_features = Inr example_dataset
   \<and> example_features \<noteq> []
   \<and> view_names example_dataset = map fst (snd (hd example_features))
   \<and> view_names example_dataset = [''viewA'', ''viewB'']"
proof -
  from FeatureDataset_init_nonempty [of _ _ _ example_features example_dataset] example_init
  have "example_features \<noteq> [] \<and> view_names example_dataset = map fst (snd (hd example_features))"
    by blast
  then show ?thesis using example_init by (simp add: example_dataset_def)
qed

end
